theory Spec2Isabelle
  imports Main
begin

section \<open>Strings of the runtime\<close>

text \<open>
  A JavaScript string is modelled as a \<^typ>\<open>string\<close>: a list of characters, each standing
  for one code unit in the range U+0000 to U+00FF. The library operations that
  \<^verbatim>\<open>email.ts\<close> calls on strings are written out below for that range.
\<close>

definition CR :: char where
  "CR = CHR 0x0D"

definition LF :: char where
  "LF = CHR 0x0A"

definition CRLF :: string where
  "CRLF = [CR, LF]"

text \<open>\<^verbatim>\<open>String.prototype.trim\<close>: white space and line terminators are stripped at both ends.\<close>

definition is_space :: "char \<Rightarrow> bool" where
  "is_space c =
     (c \<in> set [CHR 0x09, CHR 0x0A, CHR 0x0B, CHR 0x0C, CHR 0x0D, CHR 0x20, CHR 0xA0])"

definition trim :: "string \<Rightarrow> string" where
  "trim s = rev (dropWhile is_space (rev (dropWhile is_space s)))"

text \<open>\<^verbatim>\<open>s.split(d)\<close> for a one-character separator: the empty string gives one empty piece.\<close>

fun split_from :: "char \<Rightarrow> string \<Rightarrow> string \<Rightarrow> string list" where
  "split_from d acc [] = [rev acc]"
| "split_from d acc (c # cs) =
     (if c = d then rev acc # split_from d [] cs else split_from d (c # acc) cs)"

definition split :: "char \<Rightarrow> string \<Rightarrow> string list" where
  "split d s = split_from d [] s"

text \<open>\<^verbatim>\<open>xs.join(sep)\<close>.\<close>

fun join :: "string \<Rightarrow> string list \<Rightarrow> string" where
  "join sep [] = []"
| "join sep [x] = x"
| "join sep (x # y # ys) = x @ sep @ join sep (y # ys)"

text \<open>\<^verbatim>\<open>String.prototype.toLowerCase\<close> on the Latin-1 range.\<close>

definition toLowerCase_char :: "char \<Rightarrow> char" where
  "toLowerCase_char c =
     (let n = (of_char c :: nat)
      in if (65 \<le> n \<and> n \<le> 90) \<or> (192 \<le> n \<and> n \<le> 222 \<and> n \<noteq> 215)
         then char_of (n + 32) else c)"

definition toLowerCase :: "string \<Rightarrow> string" where
  "toLowerCase s = map toLowerCase_char s"

text \<open>
  A regular expression with the \<^verbatim>\<open>i\<close> flag (and no \<^verbatim>\<open>u\<close> flag) compares characters after
  canonicalisation: the upper-case form of the character, kept only when it is a single
  code unit and does not turn a non-ASCII character into an ASCII one.
\<close>

definition canonicalize :: "char \<Rightarrow> char" where
  "canonicalize c =
     (let n = (of_char c :: nat)
      in if (97 \<le> n \<and> n \<le> 122) \<or> (224 \<le> n \<and> n \<le> 254 \<and> n \<noteq> 247)
         then char_of (n - 32) else c)"

text \<open>\<^verbatim>\<open>s.includes(p)\<close>: \<open>p\<close> occurs in \<open>s\<close> as a contiguous piece.\<close>

fun str_includes :: "'a list \<Rightarrow> 'a list \<Rightarrow> bool" where
  "str_includes [] p = (p = [])"
| "str_includes (c # cs) p = (take (length p) (c # cs) = p \<or> str_includes cs p)"

section \<open>Errors and results\<close>

text \<open>
  The values that the promises of \<^verbatim>\<open>email.ts\<close> reject with: the timeout of \<^verbatim>\<open>readLine\<close>,
  an error object handed over by the socket (identified by its message), and the
  unexpected-response error of \<^verbatim>\<open>expect\<close>, which carries the parsed code and the raw text.
\<close>

datatype error =
    Timeout
  | TransportError string
  | UnexpectedResponse nat string

text \<open>
  What awaiting a promise yields: its value, a thrown error, or nothing at all when the
  promise is never settled.
\<close>

datatype 'a res = Ok 'a | Throw error | Hang

section \<open>extractCode\<close>

definition is_digit :: "char \<Rightarrow> bool" where
  "is_digit c = (let n = (of_char c :: nat) in 48 \<le> n \<and> n \<le> 57)"

text \<open>With the \<^verbatim>\<open>m\<close> flag, \<^verbatim>\<open>^\<close> matches at the start of the text and after a line terminator.\<close>

definition is_line_terminator :: "char \<Rightarrow> bool" where
  "is_line_terminator c = (c = LF \<or> c = CR)"

definition three_digits :: "string \<Rightarrow> bool" where
  "three_digits s = (3 \<le> length s \<and> list_all is_digit (take 3 s))"

text \<open>
  \<^verbatim>\<open>resp.match(/^(\d{3})/m)\<close>: the capture group of the leftmost match, searched from left to
  right; the flag says whether the current position is the start of a line.
\<close>

fun match_code :: "bool \<Rightarrow> string \<Rightarrow> string option" where
  "match_code bol [] = None"
| "match_code bol (c # cs) =
     (if bol \<and> three_digits (c # cs) then Some (take 3 (c # cs))
      else match_code (is_line_terminator c) cs)"

text \<open>\<^verbatim>\<open>Number(m[1])\<close> on a string of decimal digits.\<close>

definition digit_value :: "char \<Rightarrow> nat" where
  "digit_value c = of_char c - 48"

definition Number_of_digits :: "string \<Rightarrow> nat" where
  "Number_of_digits ds = foldl (\<lambda>n c. 10 * n + digit_value c) 0 ds"

definition extractCode :: "string \<Rightarrow> nat" where
  "extractCode resp =
     (case match_code True resp of Some m \<Rightarrow> Number_of_digits m | None \<Rightarrow> 0)"

text \<open>
  The parser as the specification words it: the lines of the text, the first of them that
  begins with three digits, and the number those three digits spell; 0 when no line does.
\<close>

fun lines_from :: "string \<Rightarrow> string \<Rightarrow> string list" where
  "lines_from acc [] = [rev acc]"
| "lines_from acc (c # cs) =
     (if is_line_terminator c then rev acc # lines_from [] cs else lines_from (c # acc) cs)"

definition lines_of :: "string \<Rightarrow> string list" where
  "lines_of s = lines_from [] s"

definition spec_code :: "string \<Rightarrow> nat" where
  "spec_code resp =
     (case find three_digits (lines_of resp) of
        Some l \<Rightarrow> Number_of_digits (take 3 l)
      | None \<Rightarrow> 0)"

section \<open>readLine\<close>

text \<open>
  What the socket emits while a read is pending: a chunk (the text \<^verbatim>\<open>chunk.toString("utf8")\<close>
  gives for it) or an error.
\<close>

datatype sock_event = Data string | SockError string

datatype settled = Resolved string | Rejected error

text \<open>
  The closure of one call of \<^verbatim>\<open>readLine\<close>: the buffer, whether \<^verbatim>\<open>onData\<close> and \<^verbatim>\<open>onErr\<close> are
  registered on the socket, whether the timer is pending, and the state of the promise.
\<close>

record reader =
  buf :: string
  data_listener :: bool
  error_listener :: bool
  timer :: bool
  promise :: "settled option"

text \<open>\<^verbatim>\<open>resolve\<close> and \<^verbatim>\<open>reject\<close>: only the first call settles a promise.\<close>

definition settle :: "settled \<Rightarrow> reader \<Rightarrow> reader" where
  "settle v r = (case promise r of None \<Rightarrow> r\<lparr>promise := Some v\<rparr> | Some _ \<Rightarrow> r)"

definition cleanup :: "reader \<Rightarrow> reader" where
  "cleanup r = r\<lparr>timer := False, data_listener := False, error_listener := False\<rparr>"

definition onData :: "string \<Rightarrow> reader \<Rightarrow> reader" where
  "onData chunk r =
     (let r' = r\<lparr>buf := buf r @ chunk\<rparr>
      in if str_includes (buf r') [LF] then settle (Resolved (buf r')) (cleanup r') else r')"

definition onErr :: "string \<Rightarrow> reader \<Rightarrow> reader" where
  "onErr e r = settle (Rejected (TransportError e)) (cleanup r)"

definition onTimeout :: "reader \<Rightarrow> reader" where
  "onTimeout r = settle (Rejected Timeout) (cleanup r)"

text \<open>The body of the promise executor: an empty buffer, the timer set, both listeners added.\<close>

definition executor :: reader where
  "executor = \<lparr>buf = [], data_listener = True, error_listener = True, timer = True,
     promise = None\<rparr>"

text \<open>
  One turn of the event loop: the socket emits an event, or the timeout elapses. A callback
  runs only while it is registered.
\<close>

datatype turn = Emit sock_event | Elapsed

fun dispatch :: "turn \<Rightarrow> reader \<Rightarrow> reader" where
  "dispatch (Emit (Data chunk)) r = (if data_listener r then onData chunk r else r)"
| "dispatch (Emit (SockError e)) r = (if error_listener r then onErr e r else r)"
| "dispatch Elapsed r = (if timer r then onTimeout r else r)"

definition run_turns :: "turn list \<Rightarrow> reader \<Rightarrow> reader" where
  "run_turns ts r = foldl (\<lambda>r t. dispatch t r) r ts"

text \<open>
  The transport's behaviour during one read is a list of events, each with its arrival time
  in milliseconds after the call. The timer elapses after \<open>timeoutMs\<close>: before the first
  event that arrives no earlier, or after the last event.
\<close>

definition in_time :: "nat \<Rightarrow> nat \<times> sock_event \<Rightarrow> bool" where
  "in_time timeoutMs ev = (fst ev < timeoutMs)"

definition schedule :: "nat \<Rightarrow> (nat \<times> sock_event) list \<Rightarrow> turn list" where
  "schedule timeoutMs evs =
     map (\<lambda>ev. Emit (snd ev)) (takeWhile (in_time timeoutMs) evs)
     @ Elapsed # map (\<lambda>ev. Emit (snd ev)) (dropWhile (in_time timeoutMs) evs)"

definition readLine :: "nat \<Rightarrow> (nat \<times> sock_event) list \<Rightarrow> reader" where
  "readLine timeoutMs evs = run_turns (schedule timeoutMs evs) executor"

text \<open>
  The outcome of a read in words: the chunks that arrive in time are appended to the buffer
  one by one; the read succeeds with the whole buffer as soon as it holds a newline, fails
  with the socket's error when that comes first, and times out otherwise.
\<close>

fun read_outcome :: "nat \<Rightarrow> string \<Rightarrow> (nat \<times> sock_event) list \<Rightarrow> settled" where
  "read_outcome timeoutMs acc [] = Rejected Timeout"
| "read_outcome timeoutMs acc ((t, Data chunk) # evs) =
     (if timeoutMs \<le> t then Rejected Timeout
      else if str_includes (acc @ chunk) [LF] then Resolved (acc @ chunk)
      else read_outcome timeoutMs (acc @ chunk) evs)"
| "read_outcome timeoutMs acc ((t, SockError e) # evs) =
     (if timeoutMs \<le> t then Rejected Timeout else Rejected (TransportError e))"

text \<open>
  What the socket still has to emit once the read has settled: the events that the read did
  not consume, each with its arrival time counted from the moment the read settled. They are
  not lost: the listeners of this read are gone, and the next read on the socket receives
  them. (\<open>rebase\<close> moves the origin of the times; an event timed before the new origin counts
  as arriving at it.)
\<close>

definition rebase :: "nat \<Rightarrow> (nat \<times> sock_event) list \<Rightarrow> (nat \<times> sock_event) list" where
  "rebase origin evs = map (\<lambda>ev. (fst ev - origin, snd ev)) evs"

fun remaining :: "nat \<Rightarrow> string \<Rightarrow> (nat \<times> sock_event) list \<Rightarrow> (nat \<times> sock_event) list" where
  "remaining timeoutMs acc [] = []"
| "remaining timeoutMs acc ((t, Data chunk) # evs) =
     (if timeoutMs \<le> t then rebase timeoutMs ((t, Data chunk) # evs)
      else if str_includes (acc @ chunk) [LF] then rebase t evs
      else remaining timeoutMs (acc @ chunk) evs)"
| "remaining timeoutMs acc ((t, SockError e) # evs) =
     (if timeoutMs \<le> t then rebase timeoutMs ((t, SockError e) # evs) else rebase t evs)"

text \<open>The line a reader that stops at the newline would return from the same text.\<close>

definition first_line :: "string \<Rightarrow> string" where
  "first_line s = takeWhile (\<lambda>c. c \<noteq> LF) s @ [LF]"

text \<open>
  The two conditions a reader can be in: still waiting, with both listeners and the timer
  in place, or settled, with all three gone.
\<close>

definition waiting :: "reader \<Rightarrow> bool" where
  "waiting r = (promise r = None \<and> data_listener r \<and> error_listener r \<and> timer r)"

definition released :: "reader \<Rightarrow> bool" where
  "released r =
     (promise r \<noteq> None \<and> \<not> data_listener r \<and> \<not> error_listener r \<and> \<not> timer r)"

section \<open>The process and the network\<close>

text \<open>
  Everything \<^verbatim>\<open>sendEmail\<close> reads from outside is gathered in one record: the process
  environment, the runtime's conversion \<^verbatim>\<open>Number\<close> of a string (\<open>Some n\<close> when the value is the
  integer \<open>n\<close>, \<open>None\<close> for every other value), the digits that
  \<^verbatim>\<open>Math.random().toString(16).slice(2)\<close> yields, and the behaviour of the network: how the
  connection attempt and the TLS handshake after STARTTLS end, what the socket emits once
  the connection stands, how each write ends, and whether \<^verbatim>\<open>sock.end()\<close> throws. The
  arrivals are one list for the whole connection, in the order of emission, each event with
  its arrival time in milliseconds after the connection was made; the TLS session of an
  upgrade emits what is left of the same list. Writes take their results from their list in
  order; past its end every write is acknowledged. The callback of a write and the end of a
  handshake come at once: before the next event of the socket.
\<close>

datatype handshake = Established | Failed string | Stalled

datatype write_result = Written | WriteError string | NoCallback

record world =
  process_env :: "string \<Rightarrow> string option"
  to_number :: "string \<Rightarrow> int option"
  random_hex :: string
  connecting :: handshake
  upgrading :: handshake
  arrivals :: "(nat \<times> sock_event) list"
  write_results :: "write_result list"
  end_throws :: bool

text \<open>\<^verbatim>\<open>env(k)\<close>: \<^verbatim>\<open>(process.env[k] || "").trim()\<close>.\<close>

definition env :: "world \<Rightarrow> string \<Rightarrow> string" where
  "env w k = trim (case process_env w k of None \<Rightarrow> [] | Some v \<Rightarrow> v)"

text \<open>\<^verbatim>\<open>hasSmtpEnv()\<close>, read as a condition: a string is truthy when it is not empty.\<close>

definition hasSmtpEnv :: "world \<Rightarrow> bool" where
  "hasSmtpEnv w =
     (env w ''SMTP_HOST'' \<noteq> [] \<and> env w ''SMTP_PORT'' \<noteq> [] \<and> env w ''SMTP_USER'' \<noteq> []
      \<and> env w ''SMTP_PASS'' \<noteq> [] \<and> env w ''SMTP_FROM'' \<noteq> [])"

text \<open>
  \<^verbatim>\<open>b64(s)\<close>: the UTF-8 bytes of the string in base64 with padding. Every index into the
  alphabet below is less than 64, since a byte is less than 256.
\<close>

definition utf8_char :: "char \<Rightarrow> nat list" where
  "utf8_char c =
     (let n = (of_char c :: nat)
      in if n < 128 then [n] else [192 + n div 64, 128 + n mod 64])"

definition utf8 :: "string \<Rightarrow> nat list" where
  "utf8 s = concat (map utf8_char s)"

definition b64_alphabet :: string where
  "b64_alphabet = ''ABCDEFGHIJKLMNOPQRSTUVWXYZabcdefghijklmnopqrstuvwxyz0123456789+/''"

definition b64_digit :: "nat \<Rightarrow> char" where
  "b64_digit n = b64_alphabet ! n"

fun base64 :: "nat list \<Rightarrow> string" where
  "base64 [] = []"
| "base64 [a] =
     [b64_digit (a div 4), b64_digit ((a mod 4) * 16), CHR ''='', CHR ''='']"
| "base64 [a, b] =
     [b64_digit (a div 4), b64_digit ((a mod 4) * 16 + b div 16),
      b64_digit ((b mod 16) * 4), CHR ''='']"
| "base64 (a # b # c # bs) =
     [b64_digit (a div 4), b64_digit ((a mod 4) * 16 + b div 16),
      b64_digit ((b mod 16) * 4 + c div 64), b64_digit (c mod 64)] @ base64 bs"

definition b64 :: "string \<Rightarrow> string" where
  "b64 s = base64 (utf8 s)"

section \<open>makeMime\<close>

text \<open>
  The random digits are an argument: \<open>rnd\<close> is what \<^verbatim>\<open>Math.random().toString(16).slice(2)\<close>
  gave in this call.
\<close>

definition boundary_of :: "string \<Rightarrow> string" where
  "boundary_of rnd = ''----wm'' @ rnd"

definition makeMime :: "string \<Rightarrow> string \<Rightarrow> string \<Rightarrow> string \<Rightarrow> string \<Rightarrow> string" where
  "makeMime rnd sender rcpts subject html =
     (let boundary = boundary_of rnd;
          headers = join CRLF
            [''From: '' @ sender,
             ''To: '' @ rcpts,
             ''Subject: '' @ subject,
             ''MIME-Version: 1.0'',
             ''Content-Type: multipart/alternative; boundary='' @ [CHR 0x22] @ boundary
               @ [CHR 0x22],
             []];
          body = join CRLF
            [''--'' @ boundary,
             ''Content-Type: text/html; charset=utf-8'',
             ''Content-Transfer-Encoding: 7bit'',
             [],
             html,
             ''--'' @ boundary @ ''--'',
             []]
      in headers @ CRLF @ body)"

text \<open>
  The message as the specification describes it, around an arbitrary boundary token: the
  five headers, a blank line, the opening delimiter, the part's two headers, a blank line,
  the HTML, and the closing delimiter, each line ended by CRLF.
\<close>

definition mime_frame :: "string \<Rightarrow> string \<Rightarrow> string \<Rightarrow> string \<Rightarrow> string \<Rightarrow> string" where
  "mime_frame token sender rcpts subj htm =
     ''From: '' @ sender @ CRLF
     @ ''To: '' @ rcpts @ CRLF
     @ ''Subject: '' @ subj @ CRLF
     @ ''MIME-Version: 1.0'' @ CRLF
     @ ''Content-Type: multipart/alternative; boundary='' @ [CHR 0x22] @ token @ [CHR 0x22]
     @ CRLF
     @ CRLF
     @ ''--'' @ token @ CRLF
     @ ''Content-Type: text/html; charset=utf-8'' @ CRLF
     @ ''Content-Transfer-Encoding: 7bit'' @ CRLF
     @ CRLF
     @ htm @ CRLF
     @ ''--'' @ token @ ''--'' @ CRLF"

text \<open>
  A text whose only line breaks are CRLF pairs: every CR is followed by LF and every LF
  follows a CR.
\<close>

fun crlf_only :: "string \<Rightarrow> bool" where
  "crlf_only [] = True"
| "crlf_only [c] = (c \<noteq> CR \<and> c \<noteq> LF)"
| "crlf_only (c # d # cs) =
     (if c = CR then d = LF \<and> crlf_only cs else c \<noteq> LF \<and> crlf_only (d # cs))"

definition no_breaks :: "string \<Rightarrow> bool" where
  "no_breaks s = list_all (\<lambda>c. c \<noteq> CR \<and> c \<noteq> LF) s"

section \<open>The session\<close>

text \<open>
  A socket is the plain one of \<^verbatim>\<open>net.connect\<close>, the TLS one of \<^verbatim>\<open>tls.connect\<close>, or the TLS
  session that \<^verbatim>\<open>tls.connect({socket})\<close> wraps around an existing socket.
\<close>

datatype sock = Plain | Tls | TlsOver sock

text \<open>What the run does to the outside: the trace lists these in order.\<close>

datatype action =
    Connect sock string "int option"
  | Write sock string
  | Upgrade sock
  | End sock
  | Warn
  | LogError error

text \<open>
  The state of one run: the variable \<^verbatim>\<open>sock\<close>, what the socket has still to emit (with
  times counted from the present moment), the results of the writes to come, and the trace
  so far.
\<close>

record session =
  sock :: sock
  incoming :: "(nat \<times> sock_event) list"
  pending_writes :: "write_result list"
  trace :: "action list"

type_synonym 'a io = "session \<Rightarrow> 'a res \<times> session"

definition return :: "'a \<Rightarrow> 'a io" where
  "return a s = (Ok a, s)"

definition throw :: "error \<Rightarrow> 'a io" where
  "throw e s = (Throw e, s)"

text \<open>\<^verbatim>\<open>const x = await m; f(x)\<close>: an error or a promise that never settles ends the sequence.\<close>

definition bind :: "'a io \<Rightarrow> ('a \<Rightarrow> 'b io) \<Rightarrow> 'b io" where
  "bind m f s =
     (case m s of
        (Ok a, s') \<Rightarrow> f a s'
      | (Throw e, s') \<Rightarrow> (Throw e, s')
      | (Hang, s') \<Rightarrow> (Hang, s'))"

text \<open>\<^verbatim>\<open>await m; n\<close>.\<close>

definition before :: "'a io \<Rightarrow> 'b io \<Rightarrow> 'b io" where
  "before m n = bind m (\<lambda>_. n)"

definition await_settled :: "settled option \<Rightarrow> string res" where
  "await_settled p =
     (case p of
        Some (Resolved text) \<Rightarrow> Ok text
      | Some (Rejected e) \<Rightarrow> Throw e
      | None \<Rightarrow> Hang)"

text \<open>
  \<^verbatim>\<open>await readLine(sock, timeoutMs)\<close>: the read listens to what the socket emits from now on,
  and leaves to the next read what it has not consumed when it settles.
\<close>

definition await_readLine :: "nat \<Rightarrow> string io" where
  "await_readLine timeoutMs s =
     (await_settled (promise (readLine timeoutMs (incoming s))),
      s\<lparr>incoming := remaining timeoutMs [] (incoming s)\<rparr>)"

text \<open>\<^verbatim>\<open>await write(sock, str)\<close>, on the socket that the variable holds at that moment.\<close>

definition write_outcome :: "write_result \<Rightarrow> unit res" where
  "write_outcome r =
     (case r of
        Written \<Rightarrow> Ok ()
      | WriteError e \<Rightarrow> Throw (TransportError e)
      | NoCallback \<Rightarrow> Hang)"

definition sock_write :: "string \<Rightarrow> unit io" where
  "sock_write str s =
     (let s' = s\<lparr>trace := trace s @ [Write (sock s) str]\<rparr>
      in case pending_writes s of
           [] \<Rightarrow> (Ok (), s')
         | r # rest \<Rightarrow> (write_outcome r, s'\<lparr>pending_writes := rest\<rparr>))"

definition expect :: "nat list \<Rightarrow> nat \<Rightarrow> string io" where
  "expect okCodes timeoutMs =
     bind (await_readLine timeoutMs) (\<lambda>resp.
       let code = extractCode resp
       in if code \<notin> set okCodes then throw (UnexpectedResponse code resp)
          else return resp)"

text \<open>Lines 140 to 142: the banner, EHLO, and the reply to it.\<close>

definition greeting :: "string io" where
  "greeting =
     before (expect [220] 10000)
    (before (sock_write (''EHLO water-monitoring'' @ CRLF))
            (await_readLine 10000))"

text \<open>\<^verbatim>\<open>/STARTTLS/i.test(ehlo)\<close>.\<close>

definition advertises_starttls :: "string \<Rightarrow> bool" where
  "advertises_starttls ehlo = str_includes (map canonicalize ehlo) ''STARTTLS''"

text \<open>
  Lines 148 to 152: the variable is assigned the TLS session over the current socket, then
  the handshake is awaited.
\<close>

definition await_handshake :: "handshake \<Rightarrow> unit res" where
  "await_handshake h =
     (case h of
        Established \<Rightarrow> Ok ()
      | Failed e \<Rightarrow> Throw (TransportError e)
      | Stalled \<Rightarrow> Hang)"

definition tls_wrap :: "world \<Rightarrow> unit io" where
  "tls_wrap w s =
     (await_handshake (upgrading w),
      s\<lparr>sock := TlsOver (sock s), trace := trace s @ [Upgrade (sock s)]\<rparr>)"

text \<open>Lines 145 to 155.\<close>

definition starttls :: "world \<Rightarrow> int option \<Rightarrow> bool \<Rightarrow> string \<Rightarrow> unit io" where
  "starttls w port useStartTls ehlo =
     (if port \<noteq> Some 465 \<and> useStartTls \<and> advertises_starttls ehlo then
        before (sock_write (''STARTTLS'' @ CRLF))
       (before (expect [220] 10000)
       (before (tls_wrap w)
       (before (sock_write (''EHLO water-monitoring'' @ CRLF))
       (before (await_readLine 10000)
               (return ())))))
      else return ())"

text \<open>Lines 158 to 163.\<close>

definition auth_login :: "string \<Rightarrow> string \<Rightarrow> unit io" where
  "auth_login user pass =
     before (sock_write (''AUTH LOGIN'' @ CRLF))
    (before (expect [334] 10000)
    (before (sock_write (b64 user @ CRLF))
    (before (expect [334] 10000)
    (before (sock_write (b64 pass @ CRLF))
    (before (expect [235] 10000)
            (return ()))))))"

text \<open>Lines 165 and 166.\<close>

definition mail_from :: "string \<Rightarrow> unit io" where
  "mail_from sender =
     before (sock_write (''MAIL FROM:<'' @ sender @ ''>'' @ CRLF))
    (before (expect [250] 10000)
            (return ()))"

text \<open>Lines 168 to 171: the loop over the recipients.\<close>

fun rcpt_to :: "string list \<Rightarrow> unit io" where
  "rcpt_to [] = return ()"
| "rcpt_to (r # rs) =
     before (sock_write (''RCPT TO:<'' @ r @ ''>'' @ CRLF))
    (before (expect [250, 251] 10000)
            (rcpt_to rs))"

text \<open>Lines 173 to 179.\<close>

definition send_data :: "string \<Rightarrow> unit io" where
  "send_data mime =
     before (sock_write (''DATA'' @ CRLF))
    (before (expect [354] 10000)
    (before (sock_write (mime @ CRLF @ ''.'' @ CRLF))
    (before (expect [250] 10000)
            (return ()))))"

text \<open>The parameters of \<^verbatim>\<open>sendEmail\<close> and the configuration it reads from the environment.\<close>

record SendEmailParams =
  to :: string
  subject :: string
  html :: string

definition parse_recipients :: "string \<Rightarrow> string list" where
  "parse_recipients s = filter (\<lambda>r. r \<noteq> []) (map trim (split (CHR '','') s))"

text \<open>The body of the \<^verbatim>\<open>try\<close> block, lines 140 to 182.\<close>

definition try_block :: "world \<Rightarrow> SendEmailParams \<Rightarrow> bool io" where
  "try_block w params =
     (let port = to_number w (env w ''SMTP_PORT'');
          user = env w ''SMTP_USER'';
          pass = env w ''SMTP_PASS'';
          sender = env w ''SMTP_FROM'';
          useStartTls = (toLowerCase (env w ''SMTP_STARTTLS'') = ''true'');
          recipients = parse_recipients (to params);
          mime = makeMime (random_hex w) sender (join '', '' recipients)
                   (subject params) (html params)
      in bind greeting (\<lambda>ehlo.
         before (starttls w port useStartTls ehlo)
        (before (auth_login user pass)
        (before (mail_from sender)
        (before (rcpt_to recipients)
        (before (send_data mime)
        (before (sock_write (''QUIT'' @ CRLF))
                (return True))))))))"

text \<open>What a call of \<^verbatim>\<open>sendEmail\<close> comes to, for its caller.\<close>

datatype outcome = Returned bool | Raised error | Pending

text \<open>The \<^verbatim>\<open>finally\<close> block: \<^verbatim>\<open>sock.end()\<close> inside its own \<^verbatim>\<open>try\<close>, whose \<^verbatim>\<open>catch\<close> is empty.\<close>

definition sock_end :: "world \<Rightarrow> unit io" where
  "sock_end w s =
     (if end_throws w then Throw (TransportError ''end'') else Ok (),
      s\<lparr>trace := trace s @ [End (sock s)]\<rparr>)"

definition finally_block :: "world \<Rightarrow> outcome \<Rightarrow> session \<Rightarrow> outcome \<times> action list" where
  "finally_block w r s =
     (case sock_end w s of
        (Ok _, s') \<Rightarrow> (r, trace s')
      | (Throw _, s') \<Rightarrow> (r, trace s')
      | (Hang, s') \<Rightarrow> (Pending, trace s'))"

text \<open>
  Lines 139 to 193: the \<^verbatim>\<open>try\<close> block, the \<^verbatim>\<open>catch\<close> block (the error is logged, QUIT is
  written inside a \<^verbatim>\<open>try\<close> with an empty \<^verbatim>\<open>catch\<close>, and false is returned), and the \<^verbatim>\<open>finally\<close>
  block. A promise that never settles leaves the call pending, and no later block runs.
\<close>

definition try_catch_finally :: "world \<Rightarrow> bool io \<Rightarrow> session \<Rightarrow> outcome \<times> action list" where
  "try_catch_finally w body s =
     (case body s of
        (Ok b, s1) \<Rightarrow> finally_block w (Returned b) s1
      | (Throw e, s1) \<Rightarrow>
          (case sock_write (''QUIT'' @ CRLF) (s1\<lparr>trace := trace s1 @ [LogError e]\<rparr>) of
             (Ok _, s2) \<Rightarrow> finally_block w (Returned False) s2
           | (Throw _, s2) \<Rightarrow> finally_block w (Returned False) s2
           | (Hang, s2) \<Rightarrow> (Pending, trace s2))
      | (Hang, s1) \<Rightarrow> (Pending, trace s1))"

text \<open>
  Lines 124 to 137: the socket is created and the connection awaited, before the \<^verbatim>\<open>try\<close>
  block is entered.
\<close>

definition connected :: "world \<Rightarrow> session" where
  "connected w =
     (let host = env w ''SMTP_HOST'';
          port = to_number w (env w ''SMTP_PORT'');
          sk = (if port = Some 465 then Tls else Plain)
      in \<lparr>sock = sk, incoming = arrivals w, pending_writes = write_results w,
          trace = [Connect sk host port]\<rparr>)"

definition sendEmail :: "world \<Rightarrow> SendEmailParams \<Rightarrow> outcome \<times> action list" where
  "sendEmail w params =
     (if \<not> hasSmtpEnv w then (Returned False, [Warn])
      else if parse_recipients (to params) = [] then (Returned False, [])
      else
        (case connecting w of
           Failed e \<Rightarrow> (Raised (TransportError e), trace (connected w))
         | Stalled \<Rightarrow> (Pending, trace (connected w))
         | Established \<Rightarrow> try_catch_finally w (try_block w params) (connected w)))"

section \<open>Vocabulary of the properties\<close>

text \<open>The five variables that \<^verbatim>\<open>hasSmtpEnv\<close> requires.\<close>

definition smtp_keys :: "string list" where
  "smtp_keys = [''SMTP_HOST'', ''SMTP_PORT'', ''SMTP_USER'', ''SMTP_PASS'', ''SMTP_FROM'']"

fun is_connect :: "action \<Rightarrow> bool" where
  "is_connect (Connect sk h p) = True"
| "is_connect _ = False"

text \<open>What a read yields when the socket is about to emit the given events, with the timeout
  of ten seconds that every read of the session uses, and the code of the reply when there
  is one.\<close>

definition reply :: "(nat \<times> sock_event) list \<Rightarrow> string res" where
  "reply evs = await_settled (promise (readLine 10000 evs))"

definition reply_code :: "(nat \<times> sock_event) list \<Rightarrow> nat option" where
  "reply_code evs =
     (case reply evs of Ok t \<Rightarrow> Some (extractCode t) | Throw e \<Rightarrow> None | Hang \<Rightarrow> None)"

text \<open>The read that finds these arrivals is answered with one of the given codes.\<close>

definition accepts :: "nat list \<Rightarrow> (nat \<times> sock_event) list \<Rightarrow> bool" where
  "accepts codes evs = (case reply_code evs of Some c \<Rightarrow> c \<in> set codes | None \<Rightarrow> False)"

text \<open>
  The arrivals as the read after \<open>n\<close> earlier reads finds them, and arrivals whose times
  strictly increase: no two events come at the same moment, so each event of a later read
  comes after the earlier read has settled.
\<close>

definition nth_read :: "nat \<Rightarrow> (nat \<times> sock_event) list \<Rightarrow> (nat \<times> sock_event) list" where
  "nth_read n evs = (remaining 10000 [] ^^ n) evs"


text \<open>Every write of the list is acknowledged; every write of the list is called back,
  with or without an error.\<close>

definition acknowledged :: "write_result list \<Rightarrow> bool" where
  "acknowledged ws = list_all (\<lambda>r. r = Written) ws"

definition called_back :: "write_result list \<Rightarrow> bool" where
  "called_back ws = list_all (\<lambda>r. r \<noteq> NoCallback) ws"

text \<open>
  Three properties of an operation of the session, used in the proofs: it leaves the variable
  \<^verbatim>\<open>sock\<close> alone and its only actions are writes of strings that satisfy \<open>P\<close>; it only adds
  actions that satisfy \<open>Q\<close> to the trace; it comes to an end whenever every write is called
  back.
\<close>

definition steady :: "(string \<Rightarrow> bool) \<Rightarrow> 'a io \<Rightarrow> bool" where
  "steady P m = (\<forall>s. sock (snd (m s)) = sock s
     \<and> (\<exists>strs. trace (snd (m s)) = trace s @ map (Write (sock s)) strs \<and> list_all P strs))"

definition grows :: "(action \<Rightarrow> bool) \<Rightarrow> 'a io \<Rightarrow> bool" where
  "grows Q m = (\<forall>s. \<exists>acts. trace (snd (m s)) = trace s @ acts \<and> list_all Q acts)"

definition settles :: "'a io \<Rightarrow> bool" where
  "settles m = (\<forall>s. called_back (pending_writes s) \<longrightarrow>
     fst (m s) \<noteq> Hang \<and> called_back (pending_writes (snd (m s))))"

text \<open>The configuration values that the \<^verbatim>\<open>try\<close> block uses, and the message it sends.\<close>

definition port_of :: "world \<Rightarrow> int option" where
  "port_of w = to_number w (env w ''SMTP_PORT'')"

definition useStartTls_of :: "world \<Rightarrow> bool" where
  "useStartTls_of w = (toLowerCase (env w ''SMTP_STARTTLS'') = ''true'')"








text \<open>A call of \<^verbatim>\<open>sock.end()\<close>, and how many of them a trace holds.\<close>

fun is_end :: "action \<Rightarrow> bool" where
  "is_end (End sk) = True"
| "is_end _ = False"

definition releases :: "action list \<Rightarrow> nat" where
  "releases acts = length (filter is_end acts)"



section \<open>Example runs\<close>

text \<open>A reply that arrives in one chunk, five milliseconds after the read began.\<close>

definition line :: "string \<Rightarrow> (nat \<times> sock_event) list" where
  "line s = [(5, Data (s @ CRLF))]"

text \<open>A session whose transport holds one reply.\<close>

definition mock_session :: "string \<Rightarrow> session" where
  "mock_session s = \<lparr>sock = Plain, incoming = line s, pending_writes = [], trace = []\<rparr>"

text \<open>
  A server's replies as arrivals: one chunk for each reply, the first five milliseconds after
  the moment \<open>t\<close> and each further one five milliseconds after the one before.
\<close>

fun script :: "nat \<Rightarrow> string list \<Rightarrow> (nat \<times> sock_event) list" where
  "script t [] = []"
| "script t (s # ss) = (t + 5, Data (s @ CRLF)) # script (t + 5) ss"

text \<open>A conversion for the examples: the decimal integers.\<close>

definition decimal :: "string \<Rightarrow> int option" where
  "decimal s = (if s \<noteq> [] \<and> list_all is_digit s then Some (int (Number_of_digits s)) else None)"

definition example_env :: "string \<Rightarrow> string option" where
  "example_env =
     [''SMTP_HOST'' \<mapsto> ''mail.example.org'', ''SMTP_PORT'' \<mapsto> ''587'',
      ''SMTP_USER'' \<mapsto> ''bob'', ''SMTP_PASS'' \<mapsto> ''secret'',
      ''SMTP_FROM'' \<mapsto> ''wm@example.org'', ''SMTP_STARTTLS'' \<mapsto> ''true'']"

text \<open>A server that answers every step of a send to two recipients as the client expects.\<close>

definition happy_world :: world where
  "happy_world =
     \<lparr>process_env = example_env, to_number = decimal, random_hex = ''8f3a'',
      connecting = Established, upgrading = Established,
      arrivals = script 0
        [''220 ready'', ''250-mail'' @ CRLF @ ''250 STARTTLS'', ''220 go ahead'', ''250 mail'',
         ''334 VXNlcm5hbWU6'', ''334 UGFzc3dvcmQ6'', ''235 accepted'', ''250 sender ok'',
         ''250 ok'', ''250 ok'', ''354 end with dot'', ''250 queued''],
      write_results = [], end_throws = False\<rparr>"

definition example_params :: SendEmailParams where
  "example_params = \<lparr>to = ''a@x.org, b@y.org'', subject = ''Alert'', html = ''<p>pH</p>''\<rparr>"

text \<open>Arrivals for one read: a reply in two chunks followed by an error, and a chunk that
  comes too late.\<close>

definition two_chunks :: "(nat \<times> sock_event) list" where
  "two_chunks = [(3, Data ''250-a''), (7, Data (''b'' @ CRLF)), (9, SockError ''reset'')]"

definition late_chunk :: "(nat \<times> sock_event) list" where
  "late_chunk = [(3, Data ''250-a''), (10000, Data (''b'' @ CRLF))]"

text \<open>A recipient string with nothing in it, and an environment with a blank password.\<close>

definition blank_params :: SendEmailParams where
  "blank_params = \<lparr>to = '' , '', subject = ''Alert'', html = ''<p>pH</p>''\<rparr>"

definition no_pass_world :: world where
  "no_pass_world = happy_world\<lparr>process_env := example_env(''SMTP_PASS'' \<mapsto> ''  '')\<rparr>"


text \<open>The same configuration against a host that refuses the connection.\<close>

definition refusing_world :: world where
  "refusing_world = happy_world\<lparr>connecting := Failed ''ECONNREFUSED''\<rparr>"

text \<open>The same configuration against a server that accepts the connection and stays silent.\<close>

definition silent_world :: world where
  "silent_world = happy_world\<lparr>arrivals := []\<rparr>"



section \<open>The transport reader\<close>

lemma dispatch_released: "released r \<Longrightarrow> dispatch t r = r"
  by (cases "(t, r)" rule: dispatch.cases) (auto simp: released_def)

lemma run_turns_released: "released r \<Longrightarrow> run_turns ts r = r"
  unfolding run_turns_def by (induction ts) (simp_all add: dispatch_released)

lemma run_turns_Cons: "run_turns (t # ts) r = run_turns ts (dispatch t r)"
  by (simp add: run_turns_def)

lemma onTimeout_waiting:
  "waiting r \<Longrightarrow> released (onTimeout r) \<and> promise (onTimeout r) = Some (Rejected Timeout)"
  by (simp add: waiting_def released_def onTimeout_def settle_def cleanup_def)

lemma onErr_waiting:
  "waiting r \<Longrightarrow>
     released (onErr e r) \<and> promise (onErr e r) = Some (Rejected (TransportError e))"
  by (simp add: waiting_def released_def onErr_def settle_def cleanup_def)

lemma onData_waiting_line:
  "waiting r \<Longrightarrow> str_includes (buf r @ chunk) [LF] \<Longrightarrow>
     released (onData chunk r) \<and> promise (onData chunk r) = Some (Resolved (buf r @ chunk))"
  by (simp add: waiting_def released_def onData_def settle_def cleanup_def Let_def)

lemma onData_waiting_more:
  "waiting r \<Longrightarrow> \<not> str_includes (buf r @ chunk) [LF] \<Longrightarrow>
     waiting (onData chunk r) \<and> buf (onData chunk r) = buf r @ chunk"
  by (simp add: waiting_def onData_def Let_def)

lemma schedule_Nil: "schedule tmo [] = [Elapsed]"
  by (simp add: schedule_def)

lemma schedule_in_time:
  "t < tmo \<Longrightarrow> schedule tmo ((t, e) # evs) = Emit e # schedule tmo evs"
  by (simp add: schedule_def in_time_def)

lemma schedule_late:
  "tmo \<le> t \<Longrightarrow>
     schedule tmo ((t, e) # evs) = Elapsed # map (\<lambda>ev. Emit (snd ev)) ((t, e) # evs)"
  by (simp add: schedule_def in_time_def)

text \<open>
  From a waiting reader, the turns of one read end in a settled reader whose outcome is the
  one \<open>read_outcome\<close> describes.
\<close>

lemma run_schedule_waiting:
  "waiting r \<Longrightarrow>
     released (run_turns (schedule tmo evs) r)
     \<and> promise (run_turns (schedule tmo evs) r) = Some (read_outcome tmo (buf r) evs)"
proof (induction evs arbitrary: r)
  case Nil
  then show ?case
    by (simp add: schedule_Nil run_turns_Cons run_turns_def waiting_def onTimeout_waiting)
next
  case (Cons ev evs)
  obtain t e where ev: "ev = (t, e)" by (cases ev)
  show ?case
  proof (cases "tmo \<le> t")
    case True
    have w: "timer r" using Cons.prems by (simp add: waiting_def)
    have "run_turns (schedule tmo (ev # evs)) r
        = run_turns (map (\<lambda>ev. Emit (snd ev)) ((t, e) # evs)) (onTimeout r)"
      using True w by (simp add: ev schedule_late run_turns_Cons)
    also have "\<dots> = onTimeout r"
      using Cons.prems by (simp add: run_turns_released onTimeout_waiting)
    finally show ?thesis
      using True Cons.prems by (cases e) (simp_all add: ev onTimeout_waiting)
  next
    case False
    then have lt: "t < tmo" by simp
    show ?thesis
    proof (cases e)
      case (SockError x)
      have "run_turns (schedule tmo (ev # evs)) r = run_turns (schedule tmo evs) (onErr x r)"
        using lt Cons.prems
        by (simp add: ev SockError schedule_in_time run_turns_Cons waiting_def)
      also have "\<dots> = onErr x r"
        using Cons.prems by (simp add: run_turns_released onErr_waiting)
      finally show ?thesis
        using lt Cons.prems by (simp add: ev SockError onErr_waiting)
    next
      case (Data chunk)
      have step: "run_turns (schedule tmo (ev # evs)) r
          = run_turns (schedule tmo evs) (onData chunk r)"
        using lt Cons.prems by (simp add: ev Data schedule_in_time run_turns_Cons waiting_def)
      show ?thesis
      proof (cases "str_includes (buf r @ chunk) [LF]")
        case True
        with Cons.prems have "run_turns (schedule tmo evs) (onData chunk r) = onData chunk r"
          by (simp add: run_turns_released onData_waiting_line)
        with step True lt Cons.prems show ?thesis
          by (simp add: ev Data onData_waiting_line)
      next
        case False
        with Cons.prems have "waiting (onData chunk r)" "buf (onData chunk r) = buf r @ chunk"
          by (simp_all add: onData_waiting_more)
        with Cons.IH[of "onData chunk r"] step False lt show ?thesis
          by (simp add: ev Data)
      qed
    qed
  qed
qed

lemma waiting_executor: "waiting executor \<and> buf executor = []"
  by (simp add: waiting_def executor_def)

lemma readLine_released:
  "released (readLine timeoutMs evs)
   \<and> promise (readLine timeoutMs evs) = Some (read_outcome timeoutMs [] evs)"
  using run_schedule_waiting[of executor timeoutMs evs] waiting_executor
  by (simp add: readLine_def)

lemma str_includes_LF: "str_includes s [LF] = (LF \<in> set s)"
  by (induction s) auto

lemma read_outcome_Resolved:
  "read_outcome tmo acc evs = Resolved b \<Longrightarrow> LF \<in> set b"
  by (induction tmo acc evs rule: read_outcome.induct)
     (auto simp: str_includes_LF split: if_splits)

text \<open>
  Claim C4, as the code has it. Every call of \<^verbatim>\<open>readLine\<close> settles its promise exactly once:
  with the whole buffer accumulated over the chunks that arrived in time, as soon as the
  buffer holds a newline (the text may go on past that newline); with the timeout error when
  no newline has arrived within \<open>timeoutMs\<close>; or with the socket's error when that is emitted
  first. When the promise is settled both listeners are off the socket and the timer is
  cleared, and whatever the socket emits afterwards changes nothing.
\<close>

theorem readLine_settles_once:
  "promise (readLine timeoutMs evs) = Some (read_outcome timeoutMs [] evs)
   \<and> (read_outcome timeoutMs [] evs = Resolved b \<longrightarrow> LF \<in> set b)
   \<and> \<not> data_listener (readLine timeoutMs evs)
   \<and> \<not> error_listener (readLine timeoutMs evs)
   \<and> \<not> timer (readLine timeoutMs evs)
   \<and> run_turns later (readLine timeoutMs evs) = readLine timeoutMs evs"
proof -
  have "released (readLine timeoutMs evs)"
    and "promise (readLine timeoutMs evs) = Some (read_outcome timeoutMs [] evs)"
    using readLine_released by simp_all
  then show ?thesis
    by (simp add: run_turns_released read_outcome_Resolved) (simp add: released_def)
qed

theorem readLine_settles_once_witness:
  "promise (readLine 10000 two_chunks) = Some (Resolved (''250-ab'' @ CRLF))
   \<and> \<not> data_listener (readLine 10000 two_chunks)
   \<and> \<not> error_listener (readLine 10000 two_chunks)
   \<and> \<not> timer (readLine 10000 two_chunks)
   \<and> promise (readLine 10000 late_chunk) = Some (Rejected Timeout)"
proof -
  have a: "read_outcome 10000 [] two_chunks = Resolved (''250-ab'' @ CRLF)"
    by (simp add: two_chunks_def CRLF_def LF_def CR_def)
  have b: "read_outcome 10000 [] late_chunk = Rejected Timeout"
    by (simp add: late_chunk_def CRLF_def LF_def CR_def)
  note one = readLine_settles_once[of 10000 two_chunks "[]" "[]"]
  note two = readLine_settles_once[of 10000 late_chunk "[]" "[]", THEN conjunct1]
  from one two show ?thesis unfolding a b by (simp only: simp_thms)
qed

text \<open>
  The claim as the specification words it fails: when a chunk carries text after the
  newline, the read returns that text too, not the line that ends at the newline.
\<close>

theorem readLine_returns_past_newline:
  "promise (readLine 10000 [(5, Data (''250-mail'' @ CRLF @ ''250 STARTTLS'' @ CRLF))])
     = Some (Resolved (''250-mail'' @ CRLF @ ''250 STARTTLS'' @ CRLF))
   \<and> ''250-mail'' @ CRLF @ ''250 STARTTLS'' @ CRLF
       \<noteq> first_line (''250-mail'' @ CRLF @ ''250 STARTTLS'' @ CRLF)"
  by (simp add: readLine_released first_line_def CRLF_def LF_def CR_def)

section \<open>The response parser\<close>

lemma digit_not_terminator: "is_digit c \<Longrightarrow> \<not> is_line_terminator c"
  by (auto simp: is_digit_def is_line_terminator_def LF_def CR_def)

lemma lines_from_unfold:
  "lines_from acc s =
     (rev acc @ takeWhile (\<lambda>c. \<not> is_line_terminator c) s)
     # (case dropWhile (\<lambda>c. \<not> is_line_terminator c) s of
          [] \<Rightarrow> []
        | _ # r \<Rightarrow> lines_from [] r)"
  by (induction s arbitrary: acc) auto

lemma three_digits_iff:
  "three_digits s = (\<exists>a b c r. s = a # b # c # r \<and> is_digit a \<and> is_digit b \<and> is_digit c)"
proof (cases s)
  case Nil
  then show ?thesis by (simp add: three_digits_def)
next
  case outer: (Cons a s1)
  show ?thesis
  proof (cases s1)
    case Nil
    with outer show ?thesis by (simp add: three_digits_def)
  next
    case middle: (Cons b s2)
    show ?thesis
    proof (cases s2)
      case Nil
      with outer middle show ?thesis by (simp add: three_digits_def)
    next
      case (Cons c s3)
      with outer middle show ?thesis by (simp add: three_digits_def)
    qed
  qed
qed

lemma three_digits_takeWhile:
  "three_digits (takeWhile (\<lambda>c. \<not> is_line_terminator c) s) = three_digits s"
proof
  let ?nt = "\<lambda>c. \<not> is_line_terminator c"
  assume "three_digits (takeWhile ?nt s)"
  then obtain a b c r where tw: "takeWhile ?nt s = a # b # c # r"
    and d: "is_digit a" "is_digit b" "is_digit c"
    unfolding three_digits_iff by blast
  have "s = takeWhile ?nt s @ dropWhile ?nt s" by simp
  with tw have "s = a # b # c # (r @ dropWhile ?nt s)" by simp
  with d show "three_digits s" unfolding three_digits_iff by blast
next
  assume "three_digits s"
  then obtain a b c r where "s = a # b # c # r" "is_digit a" "is_digit b" "is_digit c"
    unfolding three_digits_iff by blast
  then show "three_digits (takeWhile (\<lambda>c. \<not> is_line_terminator c) s)"
    unfolding three_digits_iff by (simp add: digit_not_terminator)
qed

lemma take3_takeWhile:
  assumes "three_digits s"
  shows "take 3 (takeWhile (\<lambda>c. \<not> is_line_terminator c) s) = take 3 s"
proof -
  from assms obtain a b c r where "s = a # b # c # r" "is_digit a" "is_digit b" "is_digit c"
    unfolding three_digits_iff by blast
  then show ?thesis by (simp add: digit_not_terminator)
qed

lemma match_code_skip:
  "match_code False s =
     (case dropWhile (\<lambda>c. \<not> is_line_terminator c) s of
        [] \<Rightarrow> None
      | _ # r \<Rightarrow> match_code True r)"
  by (induction s) auto

text \<open>The search of the regular expression finds the first line that begins with three digits.\<close>

lemma match_code_lines:
  "match_code True s = map_option (take 3) (find three_digits (lines_of s))"
proof (induction s rule: length_induct)
  case (1 s)
  let ?nt = "\<lambda>c. \<not> is_line_terminator c"
  have lines: "lines_of s = takeWhile ?nt s
      # (case dropWhile ?nt s of [] \<Rightarrow> [] | _ # r \<Rightarrow> lines_of r)"
    unfolding lines_of_def by (subst lines_from_unfold) simp
  show ?case
  proof (cases "three_digits s")
    case True
    then have "s \<noteq> []" by (auto simp: three_digits_def)
    then obtain c cs where s: "s = c # cs" by (cases s) auto
    with True have "match_code True s = Some (take 3 s)" by simp
    moreover from True have "find three_digits (lines_of s) = Some (takeWhile ?nt s)"
      by (subst lines) (simp add: three_digits_takeWhile)
    ultimately show ?thesis using True by (simp add: take3_takeWhile)
  next
    case False
    have nd: "\<not> three_digits (takeWhile ?nt s)"
      using False by (simp add: three_digits_takeWhile)
    have rest: "find three_digits (lines_of s)
        = (case dropWhile ?nt s of [] \<Rightarrow> None | _ # r \<Rightarrow> find three_digits (lines_of r))"
    proof (cases "dropWhile ?nt s")
      case Nil
      show ?thesis by (subst lines) (simp only: Nil nd find.simps list.case if_False)
    next
      case (Cons d r)
      show ?thesis by (subst lines) (simp only: Cons nd find.simps list.case if_False)
    qed
    show ?thesis
    proof (cases s)
      case Nil
      then show ?thesis by (simp add: lines_of_def three_digits_def)
    next
      case (Cons c cs)
      have skip: "match_code True s
          = (case dropWhile ?nt s of [] \<Rightarrow> None | _ # r \<Rightarrow> match_code True r)"
        using False Cons by (simp add: match_code_skip)
      show ?thesis
      proof (cases "dropWhile ?nt s")
        case Nil
        with skip rest show ?thesis by simp
      next
        case (Cons d r)
        have "length (dropWhile ?nt s) \<le> length s" by (rule length_dropWhile_le)
        with Cons have "length r < length s" by simp
        with 1 have "match_code True r = map_option (take 3) (find three_digits (lines_of r))"
          by blast
        with skip rest Cons show ?thesis by simp
      qed
    qed
  qed
qed

lemma extractCode_spec: "extractCode content = spec_code content"
  unfolding extractCode_def spec_code_def match_code_lines
  by (simp split: option.splits)

lemma expect_resolved:
  assumes "promise (readLine timeoutMs (incoming s)) = Some (Resolved resp)"
  shows "expect okCodes timeoutMs s =
     (if extractCode resp \<in> set okCodes then Ok resp
      else Throw (UnexpectedResponse (extractCode resp) resp),
      s\<lparr>incoming := remaining timeoutMs [] (incoming s)\<rparr>)"
  using assms
  by (simp add: expect_def bind_def await_readLine_def await_settled_def Let_def
      throw_def return_def)

text \<open>
  Claim C5. For every response text, \<^verbatim>\<open>extractCode\<close> returns the number spelt by the first
  three characters of the first line that begins with three digits, and 0 when there is no
  such line; the three responses of the specification give 250, 550 and 0. For every list
  of accepted codes, \<^verbatim>\<open>expect\<close> consumes one read; when that read yields the text \<open>resp\<close>, it
  throws the unexpected-response error with the parsed code and the raw text if and only if
  the parsed code is not among the accepted ones, and returns the raw text otherwise. What
  the socket emits after that read has settled stays for the next read.
\<close>

theorem extractCode_and_expect:
  assumes "promise (readLine timeoutMs (incoming s)) = Some (Resolved resp)"
  shows "extractCode content = spec_code content
     \<and> extractCode (''250 OK'' @ CRLF) = 250
     \<and> extractCode (''550-first'' @ CRLF @ ''550 second'' @ CRLF) = 550
     \<and> extractCode (''garbage'' @ CRLF) = 0
     \<and> expect okCodes timeoutMs s =
         (if extractCode resp \<in> set okCodes then Ok resp
          else Throw (UnexpectedResponse (extractCode resp) resp),
          s\<lparr>incoming := remaining timeoutMs [] (incoming s)\<rparr>)
     \<and> ((\<exists>c raw. fst (expect okCodes timeoutMs s) = Throw (UnexpectedResponse c raw))
          = (extractCode resp \<notin> set okCodes))"
proof -
  have a: "extractCode (''250 OK'' @ CRLF) = 250" by code_simp
  have b: "extractCode (''550-first'' @ CRLF @ ''550 second'' @ CRLF) = 550" by code_simp
  have c: "extractCode (''garbage'' @ CRLF) = 0" by code_simp
  note e = expect_resolved[OF assms, of okCodes]
  have "(\<exists>c raw. fst (expect okCodes timeoutMs s) = Throw (UnexpectedResponse c raw))
          = (extractCode resp \<notin> set okCodes)"
    by (simp add: e)
  with a b c e extractCode_spec[of content] show ?thesis by simp
qed

theorem extractCode_and_expect_witness:
  "fst (expect [250] 10000 (mock_session ''550 no''))
     = Throw (UnexpectedResponse 550 (''550 no'' @ CRLF))"
proof -
  have h2: "promise (readLine 10000 (incoming (mock_session ''550 no'')))
      = Some (Resolved (''550 no'' @ CRLF))"
    by (simp add: mock_session_def readLine_released line_def CRLF_def LF_def CR_def)
  have h3: "extractCode (''550 no'' @ CRLF) = 550" by code_simp
  from extractCode_and_expect[OF h2, of _ "[250]"]
  have "expect [250] 10000 (mock_session ''550 no'') =
         (if extractCode (''550 no'' @ CRLF) \<in> set [250] then Ok (''550 no'' @ CRLF)
          else Throw (UnexpectedResponse (extractCode (''550 no'' @ CRLF)) (''550 no'' @ CRLF)),
          (mock_session ''550 no'')
            \<lparr>incoming := remaining 10000 [] (incoming (mock_session ''550 no''))\<rparr>)"
    by blast
  from this[unfolded h3] show ?thesis by simp
qed

section \<open>The short circuits of sendEmail\<close>

lemma env_unset: "process_env w k = None \<Longrightarrow> env w k = []"
  by (simp add: env_def trim_def)

lemma trim_blank: "list_all is_space s \<Longrightarrow> trim s = []"
  by (auto simp: trim_def list_all_iff dest: set_dropWhileD)

lemma env_blank: "process_env w k = Some v \<Longrightarrow> list_all is_space v \<Longrightarrow> env w k = []"
  by (simp add: env_def trim_blank)

lemma split_from_no_sep: "d \<notin> set s \<Longrightarrow> split_from d acc s = [rev acc @ s]"
  by (induction s arbitrary: acc) auto

lemma parse_blank: "list_all is_space s \<Longrightarrow> parse_recipients s = []"
proof -
  assume b: "list_all is_space s"
  have "\<not> is_space (CHR '','')" by (simp add: is_space_def)
  with b have "CHR '','' \<notin> set s" by (auto simp: list_all_iff)
  then have "split (CHR '','') s = [s]" by (simp add: split_def split_from_no_sep)
  with b show ?thesis by (simp add: parse_recipients_def trim_blank)
qed

lemma hasSmtpEnv_keys: "hasSmtpEnv w = list_all (\<lambda>k. env w k \<noteq> []) smtp_keys"
  by (simp add: hasSmtpEnv_def smtp_keys_def)

text \<open>
  Claim C8. When one of the five required variables is unset, empty or blank, and likewise
  when the recipient string parses to the empty list (as the empty string and every blank
  string do), \<^verbatim>\<open>sendEmail\<close> returns false and its trace holds no connection attempt: it is
  the warning alone in the first case and empty in the second.
\<close>

theorem sendEmail_short_circuit:
  assumes "(\<exists>k \<in> set smtp_keys. env w k = []) \<or> parse_recipients (to params) = []"
  shows "sendEmail w params = (Returned False, if hasSmtpEnv w then [] else [Warn])
     \<and> \<not> list_ex is_connect (snd (sendEmail w params))
     \<and> (process_env w k = None \<longrightarrow> env w k = [])
     \<and> (list_all is_space s \<longrightarrow> trim s = [] \<and> parse_recipients s = [])"
proof (cases "hasSmtpEnv w")
  case False
  then show ?thesis by (simp add: sendEmail_def env_unset trim_blank parse_blank)
next
  case True
  then have "\<not> (\<exists>k \<in> set smtp_keys. env w k = [])"
    by (simp add: hasSmtpEnv_keys list_all_iff)
  with assms have "parse_recipients (to params) = []" by blast
  with True show ?thesis by (simp add: sendEmail_def env_unset trim_blank parse_blank)
qed

theorem sendEmail_short_circuit_witness:
  "sendEmail happy_world blank_params = (Returned False, [])
   \<and> sendEmail no_pass_world example_params = (Returned False, [Warn])"
proof -
  have p: "parse_recipients (to blank_params) = []"
    by code_simp
  have h: "hasSmtpEnv happy_world"
    by code_simp
  have e: "env no_pass_world ''SMTP_PASS'' = []"
    by code_simp
  have n: "\<not> hasSmtpEnv no_pass_world"
    by (simp only: hasSmtpEnv_def e simp_thms)
  have k: "\<exists>k \<in> set smtp_keys. env no_pass_world k = []"
    using e by (simp add: smtp_keys_def)
  from sendEmail_short_circuit[OF disjI2, OF p, THEN conjunct1]
  have one: "sendEmail happy_world blank_params = (Returned False, [])"
    by (simp only: h if_True)
  from sendEmail_short_circuit[OF disjI1, OF k, THEN conjunct1]
  have two: "sendEmail no_pass_world example_params = (Returned False, [Warn])"
    by (simp only: n if_False)
  from one two show ?thesis by (rule conjI)
qed

section \<open>The MIME composer\<close>

lemma CR_neq_LF: "CR \<noteq> LF"
  by (simp add: CR_def LF_def)

lemma crlf_only_append: "crlf_only a \<Longrightarrow> crlf_only b \<Longrightarrow> crlf_only (a @ b)"
proof (induction a rule: crlf_only.induct)
  case 1
  then show ?case by simp
next
  case (2 c)
  then show ?case by (cases b) auto
next
  case (3 c d cs)
  then show ?case by (auto split: if_splits)
qed

lemma crlf_only_no_breaks: "no_breaks s \<Longrightarrow> crlf_only s"
  by (induction s rule: crlf_only.induct) (auto simp: no_breaks_def)

lemma crlf_only_CRLF: "crlf_only CRLF"
  by (simp add: CRLF_def CR_neq_LF)

lemma crlf_only_line: "no_breaks s \<Longrightarrow> crlf_only t \<Longrightarrow> crlf_only (s @ CRLF @ t)"
  by (simp add: crlf_only_append crlf_only_no_breaks crlf_only_CRLF)

lemma makeMime_frame:
  "makeMime rnd sender rcpts subj htm = mime_frame (boundary_of rnd) sender rcpts subj htm"
  by (simp add: makeMime_def mime_frame_def Let_def)

lemma no_breaks_boundary: "no_breaks rnd \<Longrightarrow> no_breaks (boundary_of rnd)"
  by (simp add: boundary_of_def no_breaks_def CR_def LF_def)

lemma mime_frame_crlf:
  assumes "no_breaks token" "no_breaks sender" "no_breaks rcpts" "no_breaks subj"
    and "no_breaks htm"
  shows "crlf_only (mime_frame token sender rcpts subj htm)"
proof -
  have l: "\<And>s. no_breaks s \<Longrightarrow> no_breaks (''From: '' @ s) \<and> no_breaks (''To: '' @ s)
      \<and> no_breaks (''Subject: '' @ s) \<and> no_breaks (''--'' @ s) \<and> no_breaks (''--'' @ s @ ''--'')
      \<and> no_breaks (''Content-Type: multipart/alternative; boundary='' @ [CHR 0x22] @ s
           @ [CHR 0x22])"
    by (simp add: no_breaks_def CR_def LF_def)
  have c: "no_breaks ''MIME-Version: 1.0''" "no_breaks ''Content-Type: text/html; charset=utf-8''"
     "no_breaks ''Content-Transfer-Encoding: 7bit''" "no_breaks []"
    by (simp_all add: no_breaks_def CR_def LF_def)
  have "mime_frame token sender rcpts subj htm =
     (''From: '' @ sender) @ CRLF
     @ (''To: '' @ rcpts) @ CRLF
     @ (''Subject: '' @ subj) @ CRLF
     @ ''MIME-Version: 1.0'' @ CRLF
     @ (''Content-Type: multipart/alternative; boundary='' @ [CHR 0x22] @ token @ [CHR 0x22])
     @ CRLF
     @ [] @ CRLF
     @ (''--'' @ token) @ CRLF
     @ ''Content-Type: text/html; charset=utf-8'' @ CRLF
     @ ''Content-Transfer-Encoding: 7bit'' @ CRLF
     @ [] @ CRLF
     @ htm @ CRLF
     @ (''--'' @ token @ ''--'') @ CRLF @ []"
    by (simp add: mime_frame_def)
  also have "crlf_only \<dots>"
    by (intro crlf_only_line l[THEN conjunct1] l[THEN conjunct2, THEN conjunct1]
      l[THEN conjunct2, THEN conjunct2, THEN conjunct1]
      l[THEN conjunct2, THEN conjunct2, THEN conjunct2, THEN conjunct1]
      l[THEN conjunct2, THEN conjunct2, THEN conjunct2, THEN conjunct2, THEN conjunct1]
      l[THEN conjunct2, THEN conjunct2, THEN conjunct2, THEN conjunct2, THEN conjunct2]
      c assms) simp
  finally show ?thesis .
qed

text \<open>
  Claim C9. Two calls of \<^verbatim>\<open>makeMime\<close> with the same sender, recipients, subject and HTML give
  the same frame around their boundary tokens, so the messages differ in the token alone;
  within a message the token of the Content-Type header is the token of the opening and of
  the closing delimiter; every line the composer puts together ends in CRLF, and when the
  inputs hold no line break of their own the whole message has no other line break.
\<close>

theorem makeMime_same_frame:
  "makeMime rnd1 sender rcpts subj htm = mime_frame (boundary_of rnd1) sender rcpts subj htm
   \<and> makeMime rnd2 sender rcpts subj htm = mime_frame (boundary_of rnd2) sender rcpts subj htm
   \<and> (boundary_of rnd1 = boundary_of rnd2 \<longrightarrow>
        makeMime rnd1 sender rcpts subj htm = makeMime rnd2 sender rcpts subj htm)
   \<and> (no_breaks rnd1 \<and> no_breaks sender \<and> no_breaks rcpts \<and> no_breaks subj \<and> no_breaks htm
        \<longrightarrow> crlf_only (makeMime rnd1 sender rcpts subj htm))"
  by (simp add: makeMime_frame mime_frame_crlf no_breaks_boundary)

theorem makeMime_same_frame_witness:
  "makeMime ''8f3a'' ''wm@example.org'' ''a@x.org, b@y.org'' ''Alert'' ''<p>pH</p>''
     = mime_frame ''----wm8f3a'' ''wm@example.org'' ''a@x.org, b@y.org'' ''Alert'' ''<p>pH</p>''
   \<and> crlf_only (makeMime ''8f3a'' ''wm@example.org'' ''a@x.org, b@y.org'' ''Alert'' ''<p>pH</p>'')"
proof -
  have n: "no_breaks ''8f3a'' \<and> no_breaks ''wm@example.org'' \<and> no_breaks ''a@x.org, b@y.org''
      \<and> no_breaks ''Alert'' \<and> no_breaks ''<p>pH</p>''"
    by code_simp
  have b: "boundary_of ''8f3a'' = ''----wm8f3a''"
    by (simp add: boundary_of_def)
  note m = makeMime_same_frame[of "''8f3a''" "''wm@example.org''" "''a@x.org, b@y.org''"
      "''Alert''" "''<p>pH</p>''" "''8f3a''"]
  from m[THEN conjunct1] m[THEN conjunct2, THEN conjunct2, THEN conjunct2, THEN mp, OF n]
  show ?thesis unfolding b by (rule conjI)
qed

section \<open>Operations that keep the socket\<close>

lemma steadyI:
  assumes "\<And>s. sock (snd (m s)) = sock s"
    and "\<And>s. \<exists>strs. trace (snd (m s)) = trace s @ map (Write (sock s)) strs \<and> list_all P strs"
  shows "steady P m"
  using assms by (simp add: steady_def)

lemma steadyD:
  assumes "steady P m"
  obtains strs where "sock (snd (m s)) = sock s"
    and "trace (snd (m s)) = trace s @ map (Write (sock s)) strs" and "list_all P strs"
  using assms unfolding steady_def by blast

lemma steady_return: "steady P (return a)"
  by (simp add: steady_def return_def)

lemma steady_throw: "steady P (throw e)"
  by (simp add: steady_def throw_def)

lemma steady_sock_write: "P str \<Longrightarrow> steady P (sock_write str)"
proof (rule steadyI)
  fix s show "sock (snd (sock_write str s)) = sock s"
    by (simp add: sock_write_def Let_def split: list.splits)
next
  fix s
  assume "P str"
  moreover have "trace (snd (sock_write str s)) = trace s @ map (Write (sock s)) [str]"
    by (simp add: sock_write_def Let_def split: list.splits)
  ultimately have "trace (snd (sock_write str s)) = trace s @ map (Write (sock s)) [str]
      \<and> list_all P [str]" by simp
  then show "\<exists>strs. trace (snd (sock_write str s)) = trace s @ map (Write (sock s)) strs
      \<and> list_all P strs" by (rule exI)
qed

lemma steady_await_readLine: "steady P (await_readLine tmo)"
proof (rule steadyI)
  fix s show "sock (snd (await_readLine tmo s)) = sock s"
    by (simp add: await_readLine_def)
next
  fix s
  have "trace (snd (await_readLine tmo s)) = trace s @ map (Write (sock s)) []
      \<and> list_all P []"
    by (simp add: await_readLine_def)
  then show "\<exists>strs. trace (snd (await_readLine tmo s)) = trace s @ map (Write (sock s)) strs
      \<and> list_all P strs" by (rule exI)
qed

lemma steady_bind:
  assumes m: "steady P m" and f: "\<And>a. steady P (f a)"
  shows "steady P (bind m f)"
proof -
  have main: "sock (snd (bind m f s)) = sock s
      \<and> (\<exists>strs. trace (snd (bind m f s)) = trace s @ map (Write (sock s)) strs
            \<and> list_all P strs)" for s
  proof -
    obtain r s' where ms: "m s = (r, s')" by (cases "m s")
    from m obtain strs where "sock (snd (m s)) = sock s"
      and "trace (snd (m s)) = trace s @ map (Write (sock s)) strs" and p: "list_all P strs"
      by (rule steadyD)
    with ms have k: "sock s' = sock s" and t: "trace s' = trace s @ map (Write (sock s)) strs"
      by simp_all
    show ?thesis
    proof (cases r)
      case (Ok a)
      from f[of a] obtain strs' where "sock (snd (f a s')) = sock s'"
        and "trace (snd (f a s')) = trace s' @ map (Write (sock s')) strs'"
        and "list_all P strs'"
        by (rule steadyD)
      with k t p have k': "sock (snd (f a s')) = sock s"
        and e: "trace (snd (f a s')) = trace s @ map (Write (sock s)) (strs @ strs')
          \<and> list_all P (strs @ strs')"
        by simp_all
      from e have "\<exists>x. trace (snd (f a s')) = trace s @ map (Write (sock s)) x \<and> list_all P x"
        by (rule exI)
      with k' ms Ok show ?thesis unfolding bind_def by simp
    next
      case (Throw e)
      from t p have "trace s' = trace s @ map (Write (sock s)) strs \<and> list_all P strs" by simp
      then have "\<exists>x. trace s' = trace s @ map (Write (sock s)) x \<and> list_all P x"
        by (rule exI)
      with ms Throw k show ?thesis unfolding bind_def by simp
    next
      case Hang
      from t p have "trace s' = trace s @ map (Write (sock s)) strs \<and> list_all P strs" by simp
      then have "\<exists>x. trace s' = trace s @ map (Write (sock s)) x \<and> list_all P x"
        by (rule exI)
      with ms Hang k show ?thesis unfolding bind_def by simp
    qed
  qed
  show ?thesis by (rule steadyI) (simp_all add: main)
qed


lemma steady_expect: "steady P (expect codes tmo)"
  unfolding expect_def
  by (intro steady_bind steady_await_readLine) (simp add: Let_def steady_throw steady_return)



section \<open>Operations that only add to the trace\<close>

lemma growsI:
  "(\<And>s. \<exists>acts. trace (snd (m s)) = trace s @ acts \<and> list_all Q acts) \<Longrightarrow> grows Q m"
  by (simp add: grows_def)

lemma growsD:
  assumes "grows Q m"
  obtains acts where "trace (snd (m s)) = trace s @ acts" and "list_all Q acts"
  using assms unfolding grows_def by blast

lemma steady_grows:
  assumes "steady P m" and "\<And>sk str. P str \<Longrightarrow> Q (Write sk str)"
  shows "grows Q m"
proof (rule growsI)
  fix s
  from assms(1) obtain strs where "trace (snd (m s)) = trace s @ map (Write (sock s)) strs"
    and "list_all P strs"
    by (rule steadyD)
  with assms(2) have "trace (snd (m s)) = trace s @ map (Write (sock s)) strs
      \<and> list_all Q (map (Write (sock s)) strs)"
    by (simp add: list_all_iff)
  then show "\<exists>acts. trace (snd (m s)) = trace s @ acts \<and> list_all Q acts"
    by (rule exI)
qed

lemma grows_bind:
  assumes m: "grows Q m" and f: "\<And>a. grows Q (f a)"
  shows "grows Q (bind m f)"
proof (rule growsI)
  fix s
  obtain r s' where ms: "m s = (r, s')" by (cases "m s")
  from m obtain acts where "trace (snd (m s)) = trace s @ acts" and w: "list_all Q acts"
    by (rule growsD)
  with ms have t: "trace s' = trace s @ acts" by simp
  show "\<exists>acts. trace (snd (bind m f s)) = trace s @ acts \<and> list_all Q acts"
  proof (cases r)
    case (Ok a)
    from f[of a] obtain acts' where "trace (snd (f a s')) = trace s' @ acts'"
      and "list_all Q acts'"
      by (rule growsD)
    with t w have "trace (snd (f a s')) = trace s @ (acts @ acts') \<and> list_all Q (acts @ acts')"
      by simp
    then have "\<exists>x. trace (snd (f a s')) = trace s @ x \<and> list_all Q x"
      by (rule exI)
    with ms Ok show ?thesis unfolding bind_def by simp
  next
    case (Throw e)
    from t w have "trace s' = trace s @ acts \<and> list_all Q acts" by simp
    then have "\<exists>x. trace s' = trace s @ x \<and> list_all Q x"
      by (rule exI)
    with ms Throw show ?thesis unfolding bind_def by simp
  next
    case Hang
    from t w have "trace s' = trace s @ acts \<and> list_all Q acts" by simp
    then have "\<exists>x. trace s' = trace s @ x \<and> list_all Q x"
      by (rule exI)
    with ms Hang show ?thesis unfolding bind_def by simp
  qed
qed

lemma grows_before: "grows Q m \<Longrightarrow> grows Q n \<Longrightarrow> grows Q (before m n)"
  by (simp add: before_def grows_bind)

lemma grows_tls_wrap: "(\<And>sk. Q (Upgrade sk)) \<Longrightarrow> grows Q (tls_wrap w)"
proof (rule growsI)
  fix s
  assume "\<And>sk. Q (Upgrade sk)"
  then have "trace (snd (tls_wrap w s)) = trace s @ [Upgrade (sock s)]
      \<and> list_all Q [Upgrade (sock s)]"
    by (simp add: tls_wrap_def)
  then show "\<exists>acts. trace (snd (tls_wrap w s)) = trace s @ acts \<and> list_all Q acts"
    by (rule exI)
qed

section \<open>Operations that settle\<close>

lemma settles_return: "settles (return a)"
  by (simp add: settles_def return_def)

lemma settles_throw: "settles (throw e)"
  by (simp add: settles_def throw_def)

lemma called_back_Cons: "called_back (r # ws) = (r \<noteq> NoCallback \<and> called_back ws)"
  by (simp add: called_back_def)

lemma settles_sock_write: "settles (sock_write str)"
  unfolding settles_def
proof (intro allI impI)
  fix s :: session
  assume cb: "called_back (pending_writes s)"
  show "fst (sock_write str s) \<noteq> Hang \<and> called_back (pending_writes (snd (sock_write str s)))"
  proof (cases "pending_writes s")
    case Nil
    then show ?thesis by (simp add: sock_write_def Let_def called_back_def)
  next
    case (Cons r rest)
    with cb have "r \<noteq> NoCallback" "called_back rest" by (simp_all add: called_back_Cons)
    with Cons show ?thesis
      by (cases r) (simp_all add: sock_write_def Let_def write_outcome_def)
  qed
qed

lemma promise_readLine: "promise (readLine tmo evs) = Some (read_outcome tmo [] evs)"
  using readLine_released[of tmo evs] by (rule conjunct2)

lemma reply_not_Hang: "await_settled (promise (readLine tmo evs)) \<noteq> Hang"
  by (cases "read_outcome tmo [] evs") (simp_all add: promise_readLine await_settled_def)

lemma settles_await_readLine: "settles (await_readLine tmo)"
  unfolding settles_def
proof (intro allI impI)
  fix s :: session
  assume "called_back (pending_writes s)"
  then show "fst (await_readLine tmo s) \<noteq> Hang
      \<and> called_back (pending_writes (snd (await_readLine tmo s)))"
    by (simp add: await_readLine_def reply_not_Hang)
qed

lemma settles_bind:
  assumes m: "settles m" and f: "\<And>a. settles (f a)"
  shows "settles (bind m f)"
  unfolding settles_def
proof (intro allI impI)
  fix s :: session
  assume cb: "called_back (pending_writes s)"
  obtain r s' where ms: "m s = (r, s')" by (cases "m s")
  from m have "called_back (pending_writes s) \<longrightarrow>
      fst (m s) \<noteq> Hang \<and> called_back (pending_writes (snd (m s)))"
    unfolding settles_def by (rule spec)
  with cb ms have r: "r \<noteq> Hang" and cb': "called_back (pending_writes s')"
    by simp_all
  show "fst (bind m f s) \<noteq> Hang \<and> called_back (pending_writes (snd (bind m f s)))"
  proof (cases r)
    case (Ok a)
    from f[of a] have "called_back (pending_writes s') \<longrightarrow>
        fst (f a s') \<noteq> Hang \<and> called_back (pending_writes (snd (f a s')))"
      unfolding settles_def by (rule spec)
    with cb' ms Ok show ?thesis unfolding bind_def by simp
  next
    case (Throw e)
    with cb' ms show ?thesis unfolding bind_def by simp
  next
    case Hang
    with r show ?thesis by simp
  qed
qed

lemma settles_before: "settles m \<Longrightarrow> settles n \<Longrightarrow> settles (before m n)"
  by (simp add: before_def settles_bind)

lemma settles_expect: "settles (expect codes tmo)"
  unfolding expect_def
  by (intro settles_bind settles_await_readLine) (simp add: Let_def settles_throw settles_return)

lemmas settles_intros = settles_before settles_bind settles_expect settles_sock_write
  settles_await_readLine settles_return settles_throw

lemma settles_rcpt_to: "settles (rcpt_to rs)"
  by (induction rs) (auto intro!: settles_intros)

lemma settlesD:
  assumes "settles m" and "called_back (pending_writes s)"
  shows "fst (m s) \<noteq> Hang" and "called_back (pending_writes (snd (m s)))"
  using assms unfolding settles_def by blast+

section \<open>Sequencing\<close>

lemma bind_assoc: "bind (bind m f) g = bind m (\<lambda>a. bind (f a) g)"
  by (rule ext) (simp add: bind_def split: prod.splits res.splits)

lemma before_assoc: "before (before m n) k = before m (before n k)"
  by (simp add: before_def bind_assoc)


lemma before_return_unit: "before (return ()) k = k"
  by (rule ext) (simp add: before_def bind_def return_def)

lemma bind_Ok: "m s = (Ok a, s') \<Longrightarrow> bind m f s = f a s'"
  by (simp add: bind_def)

lemma bind_Throw: "m s = (Throw e, s') \<Longrightarrow> bind m f s = (Throw e, s')"
  by (simp add: bind_def)

lemma bind_Hang: "m s = (Hang, s') \<Longrightarrow> bind m f s = (Hang, s')"
  by (simp add: bind_def)



lemma before_Hang: "m s = (Hang, s') \<Longrightarrow> before m n s = (Hang, s')"
  by (simp add: before_def bind_def)

lemma mail_from_unit: "before (mail_from sender) k
    = before (sock_write (''MAIL FROM:<'' @ sender @ ''>'' @ CRLF)) (before (expect [250] 10000) k)"
  by (simp add: mail_from_def before_assoc before_return_unit)



section \<open>try, catch, finally\<close>

lemma finally_block_trace: "finally_block w r s = (r, trace s @ [End (sock s)])"
  by (simp add: finally_block_def sock_end_def)

lemma tcf_Ok:
  "body s = (Ok b, s1) \<Longrightarrow>
     try_catch_finally w body s = (Returned b, trace s1 @ [End (sock s1)])"
  by (simp add: try_catch_finally_def finally_block_trace)

lemma sock_write_trace: "trace (snd (sock_write str s)) = trace s @ [Write (sock s) str]"
  by (simp add: sock_write_def Let_def split: list.splits)

lemma sock_write_sock: "sock (snd (sock_write str s)) = sock s"
  by (simp add: sock_write_def Let_def split: list.splits)

lemma tcf_Throw:
  assumes "body s = (Throw e, s1)" and "called_back (pending_writes s1)"
  shows "try_catch_finally w body s
     = (Returned False,
        trace s1 @ [LogError e, Write (sock s1) (''QUIT'' @ CRLF), End (sock s1)])"
proof -
  let ?s = "s1\<lparr>trace := trace s1 @ [LogError e]\<rparr>"
  obtain r s2 where q: "sock_write (''QUIT'' @ CRLF) ?s = (r, s2)"
    by (cases "sock_write (''QUIT'' @ CRLF) ?s")
  from assms(2) have "called_back (pending_writes ?s)" by simp
  with settles_sock_write have "fst (sock_write (''QUIT'' @ CRLF) ?s) \<noteq> Hang"
    by (rule settlesD)
  with q have r: "r \<noteq> Hang" by simp
  from sock_write_trace[of "''QUIT'' @ CRLF" ?s] sock_write_sock[of "''QUIT'' @ CRLF" ?s] q
  have "trace s2 = trace s1 @ [LogError e, Write (sock s1) (''QUIT'' @ CRLF)]"
    and "sock s2 = sock s1" by simp_all
  with assms(1) q r show ?thesis
    by (cases r) (simp_all add: try_catch_finally_def finally_block_trace)
qed

lemma tcf_Hang:
  "body s = (Hang, s1) \<Longrightarrow> try_catch_finally w body s = (Pending, trace s1)"
  by (simp add: try_catch_finally_def)

lemma sendEmail_connected:
  assumes "hasSmtpEnv w" and "parse_recipients (to params) \<noteq> []"
    and "connecting w = Established"
  shows "sendEmail w params = try_catch_finally w (try_block w params) (connected w)"
  using assms by (simp add: sendEmail_def)

text \<open>Once the connection stands, no error leaves the call.\<close>

lemma try_catch_finally_never_raises: "fst (try_catch_finally w body s) \<noteq> Raised e"
  by (simp add: try_catch_finally_def finally_block_trace
      split: prod.splits res.splits)

section \<open>Single steps\<close>



lemma nth_read_add: "nth_read (m + n) evs = nth_read m (nth_read n evs)"
  by (simp add: nth_read_def funpow_add)


lemma reply_Nil: "reply [] = Throw Timeout"
  by (simp add: reply_def promise_readLine await_settled_def)

lemma await_readLine_reply:
  "await_readLine 10000 s =
     (reply (incoming s), s\<lparr>incoming := remaining 10000 [] (incoming s)\<rparr>)"
  by (simp add: await_readLine_def reply_def)

lemma expect_reply:
  "expect codes 10000 s =
     (case reply (incoming s) of
        Ok t \<Rightarrow> if extractCode t \<in> set codes then Ok t
                else Throw (UnexpectedResponse (extractCode t) t)
      | Throw e \<Rightarrow> Throw e
      | Hang \<Rightarrow> Hang,
      s\<lparr>incoming := remaining 10000 [] (incoming s)\<rparr>)"
  by (simp add: expect_def bind_def await_readLine_reply Let_def throw_def return_def
      split: res.splits)

lemma accepts_iff:
  "accepts codes evs = (\<exists>t. reply evs = Ok t \<and> extractCode t \<in> set codes)"
  by (cases "reply evs") (simp_all add: accepts_def reply_code_def)


lemma expect_Ok_iff:
  "(fst (expect codes 10000 s) = Ok t) =
     (reply (incoming s) = Ok t \<and> extractCode t \<in> set codes)"
  by (auto simp: expect_reply split: res.splits)

lemma expect_Ok_accepts:
  "expect codes 10000 s = (Ok t, s') \<Longrightarrow>
     accepts codes (incoming s) \<and> s' = s\<lparr>incoming := remaining 10000 [] (incoming s)\<rparr>"
  by (auto simp: expect_reply accepts_iff split: res.splits if_splits)






section \<open>The loop over the recipients\<close>



section \<open>Credentials on the wire\<close>





lemma base64_Nil: "(base64 bs = []) = (bs = [])"
  by (cases bs rule: base64.cases) simp_all








section \<open>The happy path\<close>




lemma acknowledged_called_back: "acknowledged ws \<Longrightarrow> called_back ws"
  by (auto simp: acknowledged_def called_back_def list_all_iff)













section \<open>Evaluating the example\<close>

lemma reply_line: "reply (line s) = Ok (s @ CRLF)"
  by (simp add: reply_def promise_readLine await_settled_def line_def str_includes_LF CRLF_def)

lemma accepts_line: "accepts codes (line s) = (extractCode (s @ CRLF) \<in> set codes)"
  by (simp add: accepts_iff reply_line)










lemma example_config:
  "hasSmtpEnv happy_world" "port_of happy_world \<noteq> Some 465" "useStartTls_of happy_world"
  "connecting happy_world = Established" "upgrading happy_world = Established"
  "acknowledged (write_results happy_world)"
  "parse_recipients (to example_params) = [''a@x.org'', ''b@y.org'']"
  by (simp_all add: happy_world_def example_params_def hasSmtpEnv_def env_def example_env_def
      trim_def is_space_def port_of_def useStartTls_of_def decimal_def is_digit_def
      Number_of_digits_def digit_value_def toLowerCase_def toLowerCase_char_def
      acknowledged_def parse_recipients_def split_def)





section \<open>What is written before the envelope\<close>

lemma grows_quiet: "steady (\<lambda>_. False) m \<Longrightarrow> grows Q m"
  by (rule steady_grows) simp_all

lemma grows_sock_write: "(\<And>sk. Q (Write sk str)) \<Longrightarrow> grows Q (sock_write str)"
  by (rule steady_grows[OF steady_sock_write[of "\<lambda>x. x = str"]]) simp_all

lemma grows_expect: "grows Q (expect codes tmo)"
  by (rule grows_quiet) (rule steady_expect)

lemma grows_await_readLine: "grows Q (await_readLine tmo)"
  by (rule grows_quiet) (rule steady_await_readLine)

lemma grows_return: "grows Q (return a)"
  by (rule grows_quiet) (rule steady_return)

lemma grows_if: "grows Q m \<Longrightarrow> grows Q n \<Longrightarrow> grows Q (if c then m else n)"
  by simp

lemmas grows_intros = grows_before grows_bind grows_sock_write grows_expect
  grows_await_readLine grows_return grows_tls_wrap




lemma grows_trace:
  assumes "grows Q m" and "m s = (r, s')"
  shows "\<exists>acts. trace s' = trace s @ acts \<and> list_all Q acts"
proof -
  from assms(1) obtain acts where "trace (snd (m s)) = trace s @ acts" and "list_all Q acts"
    by (rule growsD)
  with assms(2) have "trace s' = trace s @ acts \<and> list_all Q acts" by simp
  then show ?thesis by (rule exI)
qed



lemma arrivals_update:
  "hasSmtpEnv (w\<lparr>arrivals := a\<rparr>) = hasSmtpEnv w"
  "port_of (w\<lparr>arrivals := a\<rparr>) = port_of w"
  "useStartTls_of (w\<lparr>arrivals := a\<rparr>) = useStartTls_of w"
  "env (w\<lparr>arrivals := a\<rparr>) k = env w k"
  by (simp_all add: hasSmtpEnv_def port_of_def useStartTls_of_def env_def)

lemma connected_fields:
  "sock (connected w) = (if port_of w = Some 465 then Tls else Plain)"
  "incoming (connected w) = arrivals w"
  "pending_writes (connected w) = write_results w"
  "trace (connected w) =
     [Connect (if port_of w = Some 465 then Tls else Plain) (env w ''SMTP_HOST'') (port_of w)]"
  by (simp_all add: connected_def port_of_def Let_def)






section \<open>Errors that leave the call\<close>

lemma refusing_config:
  "hasSmtpEnv refusing_world" "connecting refusing_world = Failed ''ECONNREFUSED''"
  "port_of refusing_world \<noteq> Some 465"
  using example_config
  by (simp_all add: refusing_world_def hasSmtpEnv_def env_def port_of_def)

text \<open>
  Claim C1. \<^verbatim>\<open>sendEmail\<close> raises the error \<open>x\<close> to its caller exactly when the configuration is
  complete, there is a recipient, and the connection attempt of lines 124 to 137 fails; \<open>x\<close>
  is then the error of the transport. That attempt is awaited before the \<^verbatim>\<open>try\<close> block is
  entered, so the \<^verbatim>\<open>catch\<close> block does not see its failure. In every other case the call
  does not raise.
\<close>

theorem sendEmail_raises_iff:
  "(fst (sendEmail w params) = Raised x)
     = (hasSmtpEnv w \<and> parse_recipients (to params) \<noteq> []
        \<and> (\<exists>e. connecting w = Failed e \<and> x = TransportError e))"
proof (cases "connecting w")
  case Established
  then show ?thesis
    using try_catch_finally_never_raises[of w "try_block w params" "connected w" x]
    by (simp add: sendEmail_def)
next
  case (Failed e)
  then show ?thesis by (auto simp: sendEmail_def)
next
  case Stalled
  then show ?thesis by (simp add: sendEmail_def)
qed

theorem sendEmail_raises_iff_witness:
  "fst (sendEmail refusing_world example_params) = Raised (TransportError ''ECONNREFUSED'')"
  using sendEmail_raises_iff[of refusing_world example_params "TransportError ''ECONNREFUSED''"]
    refusing_config example_config(7)
  by simp

section \<open>Releasing the connection\<close>

lemma releases_append: "releases (xs @ ys) = releases xs + releases ys"
  by (simp add: releases_def)

lemma releases_none: "list_all (\<lambda>a. \<not> is_end a) acts \<Longrightarrow> releases acts = 0"
  by (simp add: releases_def list_all_iff)

lemma grows_rcpt_to: "(\<And>sk x. Q (Write sk x)) \<Longrightarrow> grows Q (rcpt_to rs)"
  by (induction rs) (auto intro!: grows_intros)

lemma try_block_grows:
  assumes "\<And>sk x. Q (Write sk x)" and "\<And>sk. Q (Upgrade sk)"
  shows "grows Q (try_block w params)"
  unfolding try_block_def Let_def greeting_def starttls_def auth_login_def mail_from_def
    send_data_def
  by (intro grows_intros grows_if grows_rcpt_to assms)

text \<open>The \<^verbatim>\<open>catch\<close> and \<^verbatim>\<open>finally\<close> blocks of a call that comes to an end call \<^verbatim>\<open>sock.end()\<close> once.\<close>

lemma tcf_releases:
  assumes "body s = (r, s')" and "fst (try_catch_finally w body s) \<noteq> Pending"
  shows "releases (snd (try_catch_finally w body s)) = Suc (releases (trace s'))"
proof (cases r)
  case (Ok b)
  with assms(1) show ?thesis by (simp add: tcf_Ok releases_append releases_def)
next
  case Hang
  with assms show ?thesis by (simp add: tcf_Hang)
next
  case (Throw e)
  let ?s = "s'\<lparr>trace := trace s' @ [LogError e]\<rparr>"
  obtain q s2 where q: "sock_write (''QUIT'' @ CRLF) ?s = (q, s2)"
    by (cases "sock_write (''QUIT'' @ CRLF) ?s")
  from sock_write_trace[of "''QUIT'' @ CRLF" ?s] q
  have t: "trace s2 = trace s' @ [LogError e, Write (sock s') (''QUIT'' @ CRLF)]" by simp
  show ?thesis
  proof (cases q)
    case Hang
    with assms Throw q show ?thesis by (simp add: try_catch_finally_def)
  next
    case (Ok u)
    with assms(1) Throw q t show ?thesis
      by (simp add: try_catch_finally_def finally_block_trace releases_append releases_def)
  next
    case (Throw e')
    with assms(1) \<open>r = Throw e\<close> q t show ?thesis
      by (simp add: try_catch_finally_def finally_block_trace releases_append releases_def)
  qed
qed

lemma tls_wrap_end_throws: "tls_wrap (w\<lparr>end_throws := b\<rparr>) = tls_wrap w"
  by (rule ext) (simp add: tls_wrap_def)

lemma end_throws_update:
  "hasSmtpEnv (w\<lparr>end_throws := b\<rparr>) = hasSmtpEnv w"
  "connected (w\<lparr>end_throws := b\<rparr>) = connected w"
  "try_block (w\<lparr>end_throws := b\<rparr>) params = try_block w params"
  "try_catch_finally (w\<lparr>end_throws := b\<rparr>) body s = try_catch_finally w body s"
  by (simp_all add: hasSmtpEnv_def env_def connected_def try_block_def starttls_def
      tls_wrap_end_throws try_catch_finally_def finally_block_trace Let_def cong: if_cong
      split: prod.splits res.splits)

text \<open>
  Claim C3. Take a call with a complete configuration and a recipient, so that a connection
  is attempted. When the connection is established and the call comes to an end,
  \<^verbatim>\<open>sock.end()\<close> has been called exactly once, whatever happened in between. When the \<^verbatim>\<open>try\<close>
  block throws and the write of QUIT in the \<^verbatim>\<open>catch\<close> block is called back, with or without
  an error, the call returns false after that write and one \<^verbatim>\<open>sock.end()\<close>. Whether
  \<^verbatim>\<open>sock.end()\<close> throws makes no difference to the result or to the trace. When the connection
  attempt fails, the call raises the error of the transport and \<^verbatim>\<open>sock.end()\<close> is never
  called: the \<^verbatim>\<open>finally\<close> block belongs to the \<^verbatim>\<open>try\<close> block, which is entered only after the
  connection stands.
\<close>

theorem released_once_when_connected:
  assumes "hasSmtpEnv w" and "parse_recipients (to params) \<noteq> []"
  shows "(connecting w = Established \<longrightarrow> fst (sendEmail w params) \<noteq> Pending \<longrightarrow>
            releases (snd (sendEmail w params)) = 1)
     \<and> (\<forall>e s1. connecting w = Established \<longrightarrow>
            try_block w params (connected w) = (Throw e, s1) \<longrightarrow>
            called_back (pending_writes s1) \<longrightarrow>
            sendEmail w params =
              (Returned False,
               trace s1 @ [LogError e, Write (sock s1) (''QUIT'' @ CRLF), End (sock s1)]))
     \<and> (\<forall>e. connecting w = Failed e \<longrightarrow>
            sendEmail w params =
              (Raised (TransportError e),
               [Connect (sock (connected w)) (env w ''SMTP_HOST'') (port_of w)])
            \<and> releases (snd (sendEmail w params)) = 0)
     \<and> sendEmail (w\<lparr>end_throws := b\<rparr>) params = sendEmail w params"
proof (intro conjI impI allI)
  assume c: "connecting w = Established" and p: "fst (sendEmail w params) \<noteq> Pending"
  obtain r s' where body: "try_block w params (connected w) = (r, s')"
    by (cases "try_block w params (connected w)")
  have "grows (\<lambda>a. \<not> is_end a) (try_block w params)"
    by (rule try_block_grows) simp_all
  from grows_trace[OF this body] obtain acts where
    t: "trace s' = trace (connected w) @ acts" and n: "list_all (\<lambda>a. \<not> is_end a) acts"
    by blast
  have "releases (trace s') = 0"
    by (simp add: t releases_append releases_none[OF n]) (simp add: releases_def connected_def Let_def)
  moreover have "releases (snd (sendEmail w params)) = Suc (releases (trace s'))"
    using tcf_releases[where body = "try_block w params" and s = "connected w" and w = w, OF body]
      p sendEmail_connected[OF assms c] by simp
  ultimately show "releases (snd (sendEmail w params)) = 1" by simp
next
  fix e s1
  assume c: "connecting w = Established"
    and body: "try_block w params (connected w) = (Throw e, s1)"
    and cb: "called_back (pending_writes s1)"
  from tcf_Throw[where body = "try_block w params" and s = "connected w" and w = w, OF body cb]
  show "sendEmail w params =
      (Returned False,
       trace s1 @ [LogError e, Write (sock s1) (''QUIT'' @ CRLF), End (sock s1)])"
    by (simp add: sendEmail_connected[OF assms c])
next
  fix e assume "connecting w = Failed e"
  with assms show "sendEmail w params =
      (Raised (TransportError e),
       [Connect (sock (connected w)) (env w ''SMTP_HOST'') (port_of w)])"
    by (simp add: sendEmail_def connected_def Let_def port_of_def)
next
  fix e assume "connecting w = Failed e"
  with assms show "releases (snd (sendEmail w params)) = 0"
    by (simp add: sendEmail_def connected_def Let_def releases_def)
next
  show "sendEmail (w\<lparr>end_throws := b\<rparr>) params = sendEmail w params"
    by (cases "connecting w") (simp_all add: sendEmail_def end_throws_update)
qed

lemma silent_config:
  "hasSmtpEnv silent_world" "connecting silent_world = Established"
  "port_of silent_world \<noteq> Some 465" "write_results silent_world = []"
  "arrivals silent_world = []"
  using example_config
  by (simp_all add: silent_world_def arrivals_update) (simp_all add: happy_world_def)

lemma silent_body:
  "try_block silent_world example_params (connected silent_world)
     = (Throw Timeout, (connected silent_world)\<lparr>incoming := remaining 10000 [] []\<rparr>)"
proof -
  have "expect [220] 10000 (connected silent_world)
      = (Throw Timeout, (connected silent_world)\<lparr>incoming := remaining 10000 [] []\<rparr>)"
    by (simp add: expect_reply connected_fields silent_config reply_Nil)
  then show ?thesis
    by (simp add: try_block_def Let_def greeting_def bind_def before_def)
qed

lemma silent_run:
  "sendEmail silent_world example_params =
     (Returned False,
      [Connect Plain (env silent_world ''SMTP_HOST'') (port_of silent_world),
       LogError Timeout, Write Plain (''QUIT'' @ CRLF), End Plain])"
proof -
  have ne: "parse_recipients (to example_params) \<noteq> []"
    using example_config(7) by simp
  from tcf_Throw[where body = "try_block silent_world example_params"
      and s = "connected silent_world" and w = silent_world, OF silent_body]
  show ?thesis
    by (simp add: sendEmail_connected[OF silent_config(1) ne silent_config(2)]
        connected_fields silent_config called_back_def)
qed

theorem released_once_when_connected_witness:
  "releases (snd (sendEmail silent_world example_params)) = 1
   \<and> sendEmail silent_world example_params =
       (Returned False,
        trace (connected silent_world)
        @ [LogError Timeout, Write (sock (connected silent_world)) (''QUIT'' @ CRLF),
           End (sock (connected silent_world))])
   \<and> sendEmail refusing_world example_params =
       (Raised (TransportError ''ECONNREFUSED''),
        [Connect (sock (connected refusing_world)) (env refusing_world ''SMTP_HOST'')
           (port_of refusing_world)])
   \<and> releases (snd (sendEmail refusing_world example_params)) = 0
   \<and> sendEmail (silent_world\<lparr>end_throws := True\<rparr>) example_params
       = sendEmail silent_world example_params"
proof -
  have ne: "parse_recipients (to example_params) \<noteq> []"
    using example_config(7) by simp
  have p: "fst (sendEmail silent_world example_params) \<noteq> Pending"
    by (simp add: silent_run)
  note a = released_once_when_connected[OF silent_config(1) ne, of True]
  note b = released_once_when_connected[OF refusing_config(1) ne, of True]
  from a[THEN conjunct1] silent_config(2) p
  have 1: "releases (snd (sendEmail silent_world example_params)) = 1" by blast
  have cb: "called_back (pending_writes
      ((connected silent_world)\<lparr>incoming := remaining 10000 [] []\<rparr>))"
    by (simp add: connected_fields silent_config called_back_def)
  from a[THEN conjunct2, THEN conjunct1] silent_config(2) silent_body cb
  have 3: "sendEmail silent_world example_params =
       (Returned False,
        trace ((connected silent_world)\<lparr>incoming := remaining 10000 [] []\<rparr>)
        @ [LogError Timeout,
           Write (sock ((connected silent_world)\<lparr>incoming := remaining 10000 [] []\<rparr>))
             (''QUIT'' @ CRLF),
           End (sock ((connected silent_world)\<lparr>incoming := remaining 10000 [] []\<rparr>))])"
    by blast
  from b[THEN conjunct2, THEN conjunct2, THEN conjunct1] refusing_config(2)
  have 2: "sendEmail refusing_world example_params =
       (Raised (TransportError ''ECONNREFUSED''),
        [Connect (sock (connected refusing_world)) (env refusing_world ''SMTP_HOST'')
           (port_of refusing_world)])
     \<and> releases (snd (sendEmail refusing_world example_params)) = 0" by blast
  from 3 have 4: "sendEmail silent_world example_params =
       (Returned False,
        trace (connected silent_world)
        @ [LogError Timeout, Write (sock (connected silent_world)) (''QUIT'' @ CRLF),
           End (sock (connected silent_world))])"
    by simp
  show ?thesis
    by (intro conjI 1 4 2[THEN conjunct1] 2[THEN conjunct2]
        a[THEN conjunct2, THEN conjunct2, THEN conjunct2])
qed

section \<open>The optional upgrade\<close>


lemma steady_if: "steady P m \<Longrightarrow> steady P n \<Longrightarrow> steady P (if c then m else n)"
  by simp











lemma starttls_grows: "grows (\<lambda>_. True) (starttls w port tls ehlo)"
  unfolding starttls_def by (intro grows_if grows_intros) simp_all
























end
